theory Spec2Isabelle
  imports Main "HOL-Library.Word"
begin

unbundle bit_operations_syntax

section \<open>The digest accumulator behind \<^verbatim>\<open>hashlib.md5()\<close>\<close>

text \<open>
  \<^verbatim>\<open>calculate_md5\<close> creates an accumulator with \<^verbatim>\<open>hashlib.md5()\<close>, feeds it with
  \<^verbatim>\<open>update(chunk)\<close> and reads it with \<^verbatim>\<open>hexdigest()\<close>. The accumulator is the MD5
  algorithm of RFC 1321 in its streaming form: a chaining value of four 32-bit words, the
  bytes that do not yet fill a 64-byte block, and the number of bytes seen so far.
\<close>

type_synonym byte = "8 word"
type_synonym u32 = "32 word"
type_synonym md5_state = "u32 \<times> u32 \<times> u32 \<times> u32"

definition md5_K :: "u32 list" where
  "md5_K = [
     0xd76aa478, 0xe8c7b756, 0x242070db, 0xc1bdceee,
     0xf57c0faf, 0x4787c62a, 0xa8304613, 0xfd469501,
     0x698098d8, 0x8b44f7af, 0xffff5bb1, 0x895cd7be,
     0x6b901122, 0xfd987193, 0xa679438e, 0x49b40821,
     0xf61e2562, 0xc040b340, 0x265e5a51, 0xe9b6c7aa,
     0xd62f105d, 0x02441453, 0xd8a1e681, 0xe7d3fbc8,
     0x21e1cde6, 0xc33707d6, 0xf4d50d87, 0x455a14ed,
     0xa9e3e905, 0xfcefa3f8, 0x676f02d9, 0x8d2a4c8a,
     0xfffa3942, 0x8771f681, 0x6d9d6122, 0xfde5380c,
     0xa4beea44, 0x4bdecfa9, 0xf6bb4b60, 0xbebfbc70,
     0x289b7ec6, 0xeaa127fa, 0xd4ef3085, 0x04881d05,
     0xd9d4d039, 0xe6db99e5, 0x1fa27cf8, 0xc4ac5665,
     0xf4292244, 0x432aff97, 0xab9423a7, 0xfc93a039,
     0x655b59c3, 0x8f0ccc92, 0xffeff47d, 0x85845dd1,
     0x6fa87e4f, 0xfe2ce6e0, 0xa3014314, 0x4e0811a1,
     0xf7537e82, 0xbd3af235, 0x2ad7d2bb, 0xeb86d391]"

definition md5_S :: "nat list" where
  "md5_S = [7, 12, 17, 22, 7, 12, 17, 22, 7, 12, 17, 22, 7, 12, 17, 22,
            5, 9, 14, 20, 5, 9, 14, 20, 5, 9, 14, 20, 5, 9, 14, 20,
            4, 11, 16, 23, 4, 11, 16, 23, 4, 11, 16, 23, 4, 11, 16, 23,
            6, 10, 15, 21, 6, 10, 15, 21, 6, 10, 15, 21, 6, 10, 15, 21]"

definition rotl32 :: "u32 \<Rightarrow> nat \<Rightarrow> u32" where
  "rotl32 x n = push_bit n x OR drop_bit (32 - n) x"

text \<open>Four bytes, least significant first, as one word.\<close>

definition le_word :: "byte list \<Rightarrow> u32" where
  "le_word bs = foldr (\<lambda>b acc. ucast b OR push_bit 8 acc) bs 0"

definition block_words :: "byte list \<Rightarrow> u32 list" where
  "block_words blk = map (\<lambda>i. le_word (take 4 (drop (4 * i) blk))) [0..<16]"

definition md5_round :: "u32 list \<Rightarrow> md5_state \<Rightarrow> nat \<Rightarrow> md5_state" where
  "md5_round m st i = (case st of (a, b, c, d) \<Rightarrow>
     let (f, g) = (if i < 16 then ((b AND c) OR (NOT b AND d), i)
                   else if i < 32 then ((d AND b) OR (NOT d AND c), (5 * i + 1) mod 16)
                   else if i < 48 then (b XOR c XOR d, (3 * i + 5) mod 16)
                   else (c XOR (b OR NOT d), (7 * i) mod 16));
         f' = f + a + md5_K ! i + m ! g
     in (d, b + rotl32 f' (md5_S ! i), b, c))"

definition md5_compress :: "md5_state \<Rightarrow> byte list \<Rightarrow> md5_state" where
  "md5_compress st blk = (case st of (a0, b0, c0, d0) \<Rightarrow>
     (case foldl (md5_round (block_words blk)) st [0..<64] of
        (a, b, c, d) \<Rightarrow> (a0 + a, b0 + b, c0 + c, d0 + d)))"

definition md5_init :: md5_state where
  "md5_init = (0x67452301, 0xefcdab89, 0x98badcfe, 0x10325476)"

text \<open>Compress every full 64-byte block; return the chaining value and the bytes left over.\<close>

function absorb :: "md5_state \<Rightarrow> byte list \<Rightarrow> md5_state \<times> byte list" where
  "absorb st bs = (if length bs < 64 then (st, bs)
                   else absorb (md5_compress st (take 64 bs)) (drop 64 bs))"
  by pat_completeness auto
termination
  by (relation "measure (\<lambda>(st, bs). length bs)") auto

declare absorb.simps [simp del]

text \<open>The message length in bits, modulo \<open>2 ^ 64\<close>, least significant byte first.\<close>

definition length_bytes :: "64 word \<Rightarrow> byte list" where
  "length_bytes w = map (\<lambda>i. ucast (drop_bit (8 * i) w)) [0..<8]"

definition md5_padding :: "nat \<Rightarrow> byte list" where
  "md5_padding n =
     0x80 # replicate ((55 + 64 - n mod 64) mod 64) 0 @ length_bytes (8 * of_nat n)"

definition word_bytes :: "u32 \<Rightarrow> byte list" where
  "word_bytes w = map (\<lambda>i. ucast (drop_bit (8 * i) w)) [0..<4]"

definition hex_digits :: string where
  "hex_digits = ''0123456789abcdef''"

definition hex_byte :: "byte \<Rightarrow> string" where
  "hex_byte b = [hex_digits ! (unat b div 16), hex_digits ! (unat b mod 16)]"

record md5_ctx =
  chain :: md5_state
  pending :: "byte list"
  total :: nat

definition md5_new :: md5_ctx where
  "md5_new = \<lparr>chain = md5_init, pending = [], total = 0\<rparr>"

definition md5_update :: "md5_ctx \<Rightarrow> byte list \<Rightarrow> md5_ctx" where
  "md5_update c bs = (case absorb (chain c) (pending c @ bs) of
      (st, rest) \<Rightarrow> \<lparr>chain = st, pending = rest, total = total c + length bs\<rparr>)"

definition md5_digest :: "md5_ctx \<Rightarrow> byte list" where
  "md5_digest c = (case fst (absorb (chain c) (pending c @ md5_padding (total c))) of
      (a, b, c', d) \<Rightarrow> concat (map word_bytes [a, b, c', d]))"

definition md5_hexdigest :: "md5_ctx \<Rightarrow> string" where
  "md5_hexdigest c = concat (map hex_byte (md5_digest c))"

text \<open>The shape the report promises for a digest: 32 characters, each a lowercase hex digit.\<close>

definition is_md5_hex :: "string \<Rightarrow> bool" where
  "is_md5_hex h \<longleftrightarrow> length h = 32 \<and> list_all (\<lambda>c. c \<in> set hex_digits) h"

section \<open>Exceptions\<close>

text \<open>
  The exceptions of the Python runtime that the handlers of the program tell apart.
  \<^verbatim>\<open>PermissionError\<close> and \<^verbatim>\<open>FileNotFoundError\<close> are subclasses of \<^verbatim>\<open>OSError\<close>;
  every class here except \<^verbatim>\<open>KeyboardInterrupt\<close> is a subclass of \<^verbatim>\<open>Exception\<close>.
  \<open>str\<close> is what \<^verbatim>\<open>str(e)\<close> gives.
\<close>

datatype exn_class = OSError | PermissionError | FileNotFoundError | OtherException
  | KeyboardInterrupt

datatype exn = Exn (cls: exn_class) (str: string)

fun is_OSError :: "exn_class \<Rightarrow> bool" where
  "is_OSError OSError = True"
| "is_OSError PermissionError = True"
| "is_OSError FileNotFoundError = True"
| "is_OSError OtherException = False"
| "is_OSError KeyboardInterrupt = False"

fun is_Exception :: "exn_class \<Rightarrow> bool" where
  "is_Exception KeyboardInterrupt = False"
| "is_Exception OSError = True"
| "is_Exception PermissionError = True"
| "is_Exception FileNotFoundError = True"
| "is_Exception OtherException = True"

section \<open>The file system as the scan sees it\<close>

text \<open>
  What the operating system answers for one path: \<open>stat_size\<close> is the outcome of
  \<^verbatim>\<open>os.path.getsize\<close>, \<open>open_fault\<close> the exception \<^verbatim>\<open>open(file_path, 'rb')\<close> raises (if
  any), \<open>content\<close> the bytes the opened file delivers, and \<open>read_fault = Some (k, e)\<close> says
  that the call number \<open>k\<close> (from 0) of \<^verbatim>\<open>f.read\<close> raises \<open>e\<close>. The size and the content
  are separate answers because they are separate system calls: a file may vanish between
  them.
\<close>

record file_info =
  stat_size :: "exn + nat"
  open_fault :: "exn option"
  content :: "byte list"
  read_fault :: "(nat \<times> exn) option"

definition fault_at :: "(nat \<times> exn) option \<Rightarrow> nat \<Rightarrow> exn option" where
  "fault_at fault i = (case fault of None \<Rightarrow> None
                       | Some (k, e) \<Rightarrow> if k = i then Some e else None)"

text \<open>
  The loop \<^verbatim>\<open>for chunk in iter(lambda: f.read(n), b''): md5_hash.update(chunk)\<close>:
  call \<open>i\<close> of \<^verbatim>\<open>f.read(n)\<close> raises, or returns the next at most \<open>n\<close> bytes; the empty
  chunk ends the loop.
\<close>

function read_chunks ::
  "nat \<Rightarrow> (nat \<times> exn) option \<Rightarrow> nat \<Rightarrow> byte list \<Rightarrow> md5_ctx \<Rightarrow> exn + md5_ctx" where
  "read_chunks n fault i rest ctx =
     (case fault_at fault i of
        Some e \<Rightarrow> Inl e
      | None \<Rightarrow>
          (let chunk = take n rest in
           if chunk = [] then Inr ctx
           else read_chunks n fault (i + 1) (drop n rest) (md5_update ctx chunk)))"
  by pat_completeness auto
termination
  by (relation "measure (\<lambda>(n, fault, i, rest, ctx). length rest)") auto

declare read_chunks.simps [simp del]

text \<open>The body of the \<^verbatim>\<open>try\<close> block of \<^verbatim>\<open>calculate_md5\<close>, with the chunk size as a parameter.\<close>

definition hash_stream :: "nat \<Rightarrow> file_info \<Rightarrow> exn + string" where
  "hash_stream n f =
     (case open_fault f of
        Some e \<Rightarrow> Inl e
      | None \<Rightarrow>
          (case read_chunks n (read_fault f) 0 (content f) md5_new of
             Inl e \<Rightarrow> Inl e
           | Inr md5_hash \<Rightarrow> Inr (md5_hexdigest md5_hash)))"

text \<open>
  \<^verbatim>\<open>calculate_md5\<close>: the \<^verbatim>\<open>try\<close> block reads in chunks of 8192 bytes; the handler
  \<^verbatim>\<open>except (PermissionError, OSError)\<close> turns an \<^verbatim>\<open>OSError\<close> of any subclass into the
  result \<^verbatim>\<open>None\<close>; any other exception leaves the function (\<open>Inl\<close>). The message the
  handler prints on the error stream is not part of the model.
\<close>

definition calculate_md5 :: "file_info \<Rightarrow> exn + string option" where
  "calculate_md5 f =
     (case hash_stream 8192 f of
        Inr digest \<Rightarrow> Inr (Some digest)
      | Inl e \<Rightarrow> if is_OSError (cls e) then Inr None else Inl e)"

text \<open>
  \<^verbatim>\<open>os.path.join(root, filename)\<close> on a POSIX system: an absolute second component
  replaces the first; otherwise the two are joined with one separator.
\<close>

definition path_join :: "string \<Rightarrow> string \<Rightarrow> string" where
  "path_join a b =
     (if (case b of [] \<Rightarrow> False | c # _ \<Rightarrow> c = CHR ''/'') then b
      else if a = [] \<or> last a = CHR ''/'' then a @ b
      else a @ ''/'' @ b)"

text \<open>
  A directory tree: a regular file; a directory with its entries in the order the system
  lists them; a directory entry that \<^verbatim>\<open>os.walk\<close> names but does not enter (its listing
  fails, or it is a symbolic link to a directory); and any other entry that is not a
  directory (a device, a pipe, a socket, a dangling symbolic link), which \<^verbatim>\<open>os.walk\<close>
  puts among the file names just as it does a regular file.
\<close>

datatype entry = File string | Dir string "entry list" | Unlistable string | Other string

fun dirnames :: "entry list \<Rightarrow> string list" where
  "dirnames [] = []"
| "dirnames (File n # es) = dirnames es"
| "dirnames (Dir n sub # es) = n # dirnames es"
| "dirnames (Unlistable n # es) = n # dirnames es"
| "dirnames (Other n # es) = dirnames es"

fun filenames :: "entry list \<Rightarrow> string list" where
  "filenames [] = []"
| "filenames (File n # es) = n # filenames es"
| "filenames (Dir n sub # es) = filenames es"
| "filenames (Unlistable n # es) = filenames es"
| "filenames (Other n # es) = n # filenames es"

text \<open>
  \<^verbatim>\<open>os.walk(dirpath)\<close>, top-down and without following links: the triple of the directory
  itself, then the walks of its subdirectories in listing order. A directory that cannot
  be listed contributes no triple (\<^verbatim>\<open>onerror\<close> is not set, so the error is dropped).
\<close>

fun os_walk :: "string \<Rightarrow> entry list \<Rightarrow> (string \<times> string list \<times> string list) list"
  and walk_subdirs :: "string \<Rightarrow> entry list \<Rightarrow> (string \<times> string list \<times> string list) list"
  and walk_entry :: "string \<Rightarrow> entry \<Rightarrow> (string \<times> string list \<times> string list) list" where
  "os_walk dirpath es = (dirpath, dirnames es, filenames es) # walk_subdirs dirpath es"
| "walk_subdirs dirpath [] = []"
| "walk_subdirs dirpath (e # es) = walk_entry dirpath e @ walk_subdirs dirpath es"
| "walk_entry dirpath (File n) = []"
| "walk_entry dirpath (Dir n sub) = os_walk (path_join dirpath n) sub"
| "walk_entry dirpath (Unlistable n) = []"
| "walk_entry dirpath (Other n) = []"

text \<open>
  The number of regular files in a tree (all of them, when every directory can be
  listed), and the number of its other entries that are not directories.
\<close>

fun count_files :: "entry list \<Rightarrow> nat" and count_entry :: "entry \<Rightarrow> nat" where
  "count_files [] = 0"
| "count_files (e # es) = count_entry e + count_files es"
| "count_entry (File n) = 1"
| "count_entry (Dir n sub) = count_files sub"
| "count_entry (Unlistable n) = 0"
| "count_entry (Other n) = 0"

fun count_others :: "entry list \<Rightarrow> nat" and count_other_entry :: "entry \<Rightarrow> nat" where
  "count_others [] = 0"
| "count_others (e # es) = count_other_entry e + count_others es"
| "count_other_entry (File n) = 0"
| "count_other_entry (Dir n sub) = count_others sub"
| "count_other_entry (Unlistable n) = 0"
| "count_other_entry (Other n) = 1"

fun all_listable :: "entry list \<Rightarrow> bool" and listable_entry :: "entry \<Rightarrow> bool" where
  "all_listable [] = True"
| "all_listable (e # es) = (listable_entry e \<and> all_listable es)"
| "listable_entry (File n) = True"
| "listable_entry (Dir n sub) = all_listable sub"
| "listable_entry (Unlistable n) = False"
| "listable_entry (Other n) = True"

section \<open>The report and the environment of a run\<close>

text \<open>A cell of a CSV row as \<^verbatim>\<open>csv_writer.writerow\<close> receives it: a string or an integer.\<close>

datatype pyval = PStr string | PInt int

type_synonym row = "pyval list"

text \<open>
  Everything outside the program that a run depends on. \<open>file_at\<close> answers for a path;
  \<open>listing root\<close> is the tree under \<open>root\<close>, or \<open>None\<close> when \<open>root\<close> cannot be listed (it
  is not a directory, or the listing fails); \<open>sink_open_fault\<close>, \<open>writerow_fault\<close> and
  \<open>sink_close_fault\<close> are the exceptions raised by opening the output file, by writing
  a row, and by closing the output file (its buffered rows cannot be flushed);
  \<open>path_exists\<close> is \<^verbatim>\<open>os.path.exists\<close>, \<open>mount_point\<close> the result of
  \<^verbatim>\<open>find_android_mount_point()\<close>, \<open>abspath\<close> is \<^verbatim>\<open>os.path.abspath\<close> and \<open>timestamp\<close> the
  formatted current time.
\<close>

record env =
  file_at :: "string \<Rightarrow> file_info"
  listing :: "string \<Rightarrow> entry list option"
  sink_open_fault :: "string \<Rightarrow> exn option"
  writerow_fault :: "row \<Rightarrow> exn option"
  sink_close_fault :: "string \<Rightarrow> exn option"
  path_exists :: "string \<Rightarrow> bool"
  mount_point :: "string option"
  abspath :: "string \<Rightarrow> string"
  timestamp :: string

text \<open>
  The state of \<^verbatim>\<open>scan_directory\<close>: the rows written to the report so far and the two
  counters. The summary printed at the end shows \<open>file_count\<close> as the files processed and
  \<open>error_count\<close> as the errors encountered. Progress messages are not part of the model.
\<close>

record scan_state =
  rows :: "row list"
  file_count :: nat
  error_count :: nat

definition header_row :: row where
  "header_row = [PStr ''File Path'', PStr ''MD5 Hash'', PStr ''File Size (bytes)'', PStr ''Status'']"

definition writerow :: "env \<Rightarrow> row \<Rightarrow> scan_state \<Rightarrow> scan_state \<times> exn option" where
  "writerow env r s =
     (case writerow_fault env r of
        Some e \<Rightarrow> (s, Some e)
      | None \<Rightarrow> (s\<lparr>rows := rows s @ [r]\<rparr>, None))"

section \<open>\<^verbatim>\<open>scan_directory\<close>\<close>

text \<open>
  The \<^verbatim>\<open>try\<close> block for one file (lines 65 to 82). The result carries the state reached
  and the exception that left the block, if any. \<^verbatim>\<open>if md5_hash:\<close> is false for \<^verbatim>\<open>None\<close>
  and for the empty string.
\<close>

definition file_try :: "env \<Rightarrow> string \<Rightarrow> scan_state \<Rightarrow> scan_state \<times> exn option" where
  "file_try env file_path s =
     (case stat_size (file_at env file_path) of
        Inl e \<Rightarrow> (s, Some e)
      | Inr file_size \<Rightarrow>
          (case calculate_md5 (file_at env file_path) of
             Inl e \<Rightarrow> (s, Some e)
           | Inr md5_hash \<Rightarrow>
               (let failed = writerow env
                      [PStr file_path, PStr ''N/A'', PInt (int file_size),
                       PStr ''Error - Could not read file'']
                      (s\<lparr>error_count := error_count s + 1\<rparr>)
                in case md5_hash of
                     None \<Rightarrow> failed
                   | Some h \<Rightarrow>
                       if h = [] then failed
                       else writerow env
                              [PStr file_path, PStr h, PInt (int file_size), PStr ''Success'']
                              (s\<lparr>file_count := file_count s + 1\<rparr>))))"

text \<open>
  One iteration of the inner loop: the \<^verbatim>\<open>try\<close> block and the handler
  \<^verbatim>\<open>except Exception as e\<close>, which counts an error and writes the row of the failure. An
  exception that is not an \<^verbatim>\<open>Exception\<close>, or one raised in the handler, leaves the loop.
\<close>

definition process_file :: "env \<Rightarrow> string \<Rightarrow> scan_state \<Rightarrow> scan_state \<times> exn option" where
  "process_file env file_path s =
     (case file_try env file_path s of
        (s1, None) \<Rightarrow> (s1, None)
      | (s1, Some e) \<Rightarrow>
          if is_Exception (cls e)
          then writerow env
                 [PStr file_path, PStr ''N/A'', PStr ''N/A'', PStr (''Error - '' @ str e)]
                 (s1\<lparr>error_count := error_count s1 + 1\<rparr>)
          else (s1, Some e))"

fun scan_files :: "env \<Rightarrow> string \<Rightarrow> string list \<Rightarrow> scan_state \<Rightarrow> scan_state \<times> exn option" where
  "scan_files env root [] s = (s, None)"
| "scan_files env root (filename # files) s =
     (case process_file env (path_join root filename) s of
        (s1, None) \<Rightarrow> scan_files env root files s1
      | (s1, Some e) \<Rightarrow> (s1, Some e))"

fun scan_walk ::
  "env \<Rightarrow> (string \<times> string list \<times> string list) list \<Rightarrow> scan_state \<Rightarrow> scan_state \<times> exn option" where
  "scan_walk env [] s = (s, None)"
| "scan_walk env ((root, dirs, files) # ws) s =
     (case scan_files env root files s of
        (s1, None) \<Rightarrow> scan_walk env ws s1
      | (s1, Some e) \<Rightarrow> (s1, Some e))"

definition walk_of :: "env \<Rightarrow> string \<Rightarrow> (string \<times> string list \<times> string list) list" where
  "walk_of env root_path =
     (case listing env root_path of None \<Rightarrow> [] | Some es \<Rightarrow> os_walk root_path es)"

text \<open>
  Leaving the \<^verbatim>\<open>with\<close> block of line 51 closes the report, on the normal path and when
  an exception leaves the block. An exception raised by the close replaces the one in
  flight, if any.
\<close>

definition close_report ::
  "env \<Rightarrow> string \<Rightarrow> scan_state \<times> exn option \<Rightarrow> scan_state \<times> exn option" where
  "close_report env output_csv r =
     (case sink_close_fault env output_csv of
        Some e \<Rightarrow> (fst r, Some e)
      | None \<Rightarrow> r)"

text \<open>
  \<^verbatim>\<open>scan_directory\<close>: open the report, write the header, run the two loops, close the
  report. The result is the final state, and the exception that ended the scan early or
  was raised at the close, if any; the summary is printed only when there is none.
\<close>

definition scan_directory ::
  "env \<Rightarrow> string \<Rightarrow> string \<Rightarrow> bool \<Rightarrow> scan_state \<times> exn option" where
  "scan_directory env root_path output_csv verbose =
     (let s0 = \<lparr>rows = [], file_count = 0, error_count = 0\<rparr> in
      case sink_open_fault env output_csv of
        Some e \<Rightarrow> (s0, Some e)
      | None \<Rightarrow>
          close_report env output_csv
            (case writerow env header_row s0 of
               (s1, Some e) \<Rightarrow> (s1, Some e)
             | (s1, None) \<Rightarrow> scan_walk env (walk_of env root_path) s1))"

section \<open>\<^verbatim>\<open>main\<close>\<close>

record cli_args =
  arg_path :: "string option"
  arg_output :: "string option"
  arg_verbose :: bool

text \<open>
  The device path (lines 181 to 199): the \<^verbatim>\<open>--path\<close> argument when it is given and not
  empty, else the detected mount point; \<open>None\<close> stands for the \<^verbatim>\<open>sys.exit(1)\<close> taken when
  nothing was detected.
\<close>

definition device_path_of :: "env \<Rightarrow> cli_args \<Rightarrow> string option" where
  "device_path_of env a =
     (let detected = (case mount_point env of
                        None \<Rightarrow> None
                      | Some d \<Rightarrow> if d = [] then None else Some d)
      in case arg_path a of
           None \<Rightarrow> detected
         | Some p \<Rightarrow> if p = [] then detected else Some p)"

definition output_file_of :: "env \<Rightarrow> cli_args \<Rightarrow> string" where
  "output_file_of env a =
     (let generated = ''android_scan_'' @ timestamp env @ ''.csv''
      in abspath env (case arg_output a of
                        None \<Rightarrow> generated
                      | Some out \<Rightarrow> if out = [] then generated else out))"

text \<open>
  The exit status of the process: 0 when \<^verbatim>\<open>main\<close> returns, 1 at each \<^verbatim>\<open>sys.exit(1)\<close>,
  and 1 as well for an exception that no handler of \<^verbatim>\<open>main\<close> catches.
\<close>

definition main :: "env \<Rightarrow> cli_args \<Rightarrow> nat" where
  "main env a =
     (case device_path_of env a of
        None \<Rightarrow> 1
      | Some device_path \<Rightarrow>
          if \<not> path_exists env device_path then 1
          else (case scan_directory env device_path (output_file_of env a) (arg_verbose a) of
                  (s, None) \<Rightarrow> 0
                | (s, Some e) \<Rightarrow>
                    if cls e = KeyboardInterrupt then 1
                    else if is_Exception (cls e) then 1
                    else 1))"

section \<open>Notions used to state the properties\<close>

text \<open>The report accepts every row.\<close>

definition sink_ok :: "env \<Rightarrow> bool" where
  "sink_ok env \<longleftrightarrow> (\<forall>r. writerow_fault env r = None)"

text \<open>No access error for a file: its size can be queried, it opens, and every read succeeds.\<close>

definition healthy :: "file_info \<Rightarrow> bool" where
  "healthy f \<longleftrightarrow> \<not> isl (stat_size f) \<and> open_fault f = None \<and> read_fault f = None"

text \<open>The paths the two loops of \<^verbatim>\<open>scan_directory\<close> visit, in order, and the loops over them.\<close>

definition walk_paths :: "(string \<times> string list \<times> string list) list \<Rightarrow> string list" where
  "walk_paths ws = concat (map (\<lambda>(root, dirs, files). map (path_join root) files) ws)"

fun scan_paths :: "env \<Rightarrow> string list \<Rightarrow> scan_state \<Rightarrow> scan_state \<times> exn option" where
  "scan_paths env [] s = (s, None)"
| "scan_paths env (p # ps) s =
     (case process_file env p s of
        (s1, None) \<Rightarrow> scan_paths env ps s1
      | (s1, Some e) \<Rightarrow> (s1, Some e))"

text \<open>
  \<open>calm\<close>: no exception outside \<^verbatim>\<open>Exception\<close> (an interrupt) arises while the file is
  processed. \<open>hashes\<close>: the size query and the hash both succeed. \<open>file_row\<close>: the row
  recorded for a calm file.
\<close>

definition calm :: "file_info \<Rightarrow> bool" where
  "calm f \<longleftrightarrow>
     (case stat_size f of
        Inl e \<Rightarrow> is_Exception (cls e)
      | Inr n \<Rightarrow> (case calculate_md5 f of Inl e \<Rightarrow> is_Exception (cls e) | Inr r \<Rightarrow> True))"

definition hashes :: "file_info \<Rightarrow> bool" where
  "hashes f \<longleftrightarrow>
     (case stat_size f of
        Inl e \<Rightarrow> False
      | Inr n \<Rightarrow> (case calculate_md5 f of Inr (Some h) \<Rightarrow> True | _ \<Rightarrow> False))"

definition file_row :: "string \<Rightarrow> file_info \<Rightarrow> row" where
  "file_row p f =
     (case stat_size f of
        Inl e \<Rightarrow> [PStr p, PStr ''N/A'', PStr ''N/A'', PStr (''Error - '' @ str e)]
      | Inr n \<Rightarrow>
          (case calculate_md5 f of
             Inl e \<Rightarrow> [PStr p, PStr ''N/A'', PStr ''N/A'', PStr (''Error - '' @ str e)]
           | Inr None \<Rightarrow> [PStr p, PStr ''N/A'', PInt (int n), PStr ''Error - Could not read file'']
           | Inr (Some h) \<Rightarrow> [PStr p, PStr h, PInt (int n), PStr ''Success'']))"

text \<open>
  A file that has vanished by the time it is processed: the size query already fails with
  \<^verbatim>\<open>FileNotFoundError\<close>, or the size query still succeeds and \<^verbatim>\<open>open\<close> fails with it.
\<close>

definition vanished :: "file_info \<Rightarrow> bool" where
  "vanished f \<longleftrightarrow>
     (case stat_size f of
        Inl e \<Rightarrow> cls e = FileNotFoundError
      | Inr n \<Rightarrow> (case open_fault f of None \<Rightarrow> False | Some e \<Rightarrow> cls e = FileNotFoundError))"

text \<open>
  A row has the status \<open>st\<close>; the number of rows of a report with that status.
\<close>

definition has_status :: "string \<Rightarrow> row \<Rightarrow> bool" where
  "has_status st r \<longleftrightarrow> length r = 4 \<and> r ! 3 = PStr st"

definition status_count :: "string \<Rightarrow> scan_state \<Rightarrow> nat" where
  "status_count st s = length (filter (has_status st) (rows s))"

text \<open>
  The invariant of a record of the report: four cells, and the digest cell is a digest
  exactly when the status is \<^verbatim>\<open>Success\<close>, and is \<^verbatim>\<open>N/A\<close> otherwise.
\<close>

definition record_ok :: "row \<Rightarrow> bool" where
  "record_ok r \<longleftrightarrow>
     (\<exists>p h sz st. r = [PStr p, PStr h, sz, PStr st]
        \<and> (is_md5_hex h \<longleftrightarrow> st = ''Success'') \<and> (st \<noteq> ''Success'' \<longrightarrow> h = ''N/A''))"

subsection \<open>Example files and environments\<close>

definition empty_file :: file_info where
  "empty_file = \<lparr>stat_size = Inr 0, open_fault = None, content = [], read_fault = None\<rparr>"

definition abc_file :: file_info where
  "abc_file = \<lparr>stat_size = Inr 3, open_fault = None, content = [0x61, 0x62, 0x63],
                read_fault = None\<rparr>"

definition io_error :: exn where
  "io_error = Exn OSError ''[Errno 5] Input/output error''"

definition broken_file :: file_info where
  "broken_file = \<lparr>stat_size = Inr 10000, open_fault = None, content = replicate 10000 0,
                   read_fault = Some (1, io_error)\<rparr>"

definition quiet_env :: "(string \<Rightarrow> file_info) \<Rightarrow> (string \<Rightarrow> entry list option) \<Rightarrow> env" where
  "quiet_env files tree =
     \<lparr>file_at = files, listing = tree, sink_open_fault = (\<lambda>p. None),
      writerow_fault = (\<lambda>r. None), sink_close_fault = (\<lambda>p. None),
      path_exists = (\<lambda>p. tree p \<noteq> None),
      mount_point = None, abspath = (\<lambda>p. p), timestamp = ''20240101_120000''\<rparr>"

definition denied_file :: file_info where
  "denied_file = \<lparr>stat_size = Inr 5,
                   open_fault = Some (Exn PermissionError ''[Errno 13] Permission denied''),
                   content = [], read_fault = None\<rparr>"

definition not_found :: exn where
  "not_found = Exn FileNotFoundError ''[Errno 2] No such file or directory''"

definition gone_file :: file_info where
  "gone_file = \<lparr>stat_size = Inl not_found, open_fault = Some not_found, content = [],
                 read_fault = None\<rparr>"

definition late_gone_file :: file_info where
  "late_gone_file = \<lparr>stat_size = Inr 7, open_fault = Some not_found, content = [],
                      read_fault = None\<rparr>"

definition interrupted_file :: file_info where
  "interrupted_file = \<lparr>stat_size = Inl (Exn KeyboardInterrupt ''''), open_fault = None,
                        content = [], read_fault = None\<rparr>"

definition one_file_tree :: "string \<Rightarrow> entry list option" where
  "one_file_tree p = (if p = ''/sdcard'' then Some [File ''a.bin''] else None)"

definition ten_files_tree :: "string \<Rightarrow> entry list option" where
  "ten_files_tree p =
     (if p = ''/sdcard''
      then Some [File ''f0'', File ''f1'', File ''f2'', File ''f3'', File ''f4'',
                 File ''f5'', File ''f6'', File ''f7'', File ''f8'', File ''f9'']
      else None)"

definition nested_tree :: "string \<Rightarrow> entry list option" where
  "nested_tree p =
     (if p = ''/sdcard''
      then Some [File ''a.bin'', Dir ''DCIM'' [File ''b.jpg'', Dir ''old'' []], Dir ''Music'' []]
      else None)"

definition dirs_only_tree :: "string \<Rightarrow> entry list option" where
  "dirs_only_tree p =
     (if p = ''/sdcard'' then Some [Dir ''DCIM'' [Dir ''old'' []], Dir ''Music'' []] else None)"

definition early_gone_env :: env where
  "early_gone_env =
     quiet_env (\<lambda>p. if p = ''/sdcard/f3'' then gone_file else empty_file) ten_files_tree"

definition late_gone_env :: env where
  "late_gone_env =
     quiet_env (\<lambda>p. if p = ''/sdcard/f3'' then late_gone_file else empty_file) ten_files_tree"

definition mixed_env :: env where
  "mixed_env =
     quiet_env (\<lambda>p. if p = ''/sdcard/a.bin'' then empty_file else denied_file) nested_tree"

definition scan_args :: cli_args where
  "scan_args = \<lparr>arg_path = Some ''/sdcard'', arg_output = Some ''/tmp/out.csv'',
                 arg_verbose = False\<rparr>"



definition dangling_env :: env where
  "dangling_env =
     quiet_env (\<lambda>p. gone_file) (\<lambda>p. if p = ''/sdcard'' then Some [Other ''link''] else None)"

definition file_root_env :: env where
  "file_root_env =
     (quiet_env (\<lambda>p. empty_file) (\<lambda>p. None))\<lparr>path_exists := (\<lambda>p. p = ''/sdcard/notes.txt'')\<rparr>"

definition file_root_args :: cli_args where
  "file_root_args = \<lparr>arg_path = Some ''/sdcard/notes.txt'', arg_output = Some ''/tmp/out.csv'',
                      arg_verbose = False\<rparr>"

definition disk_full :: exn where
  "disk_full = Exn OSError ''[Errno 28] No space left on device''"

definition full_disk_env :: env where
  "full_disk_env = mixed_env\<lparr>sink_close_fault := (\<lambda>p. Some disk_full)\<rparr>"

section \<open>The accumulator: chunking and the shape of the digest\<close>

lemma absorb_short: "length bs < 64 \<Longrightarrow> absorb st bs = (st, bs)"
  by (simp add: absorb.simps)

lemma absorb_long:
  "64 \<le> length bs \<Longrightarrow> absorb st bs = absorb (md5_compress st (take 64 bs)) (drop 64 bs)"
  by (subst absorb.simps) simp

lemma absorb_rest_short: "length (snd (absorb st bs)) < 64"
proof (induction st bs rule: absorb.induct)
  case (1 st bs)
  show ?case
  proof (cases "length bs < 64")
    case True
    then show ?thesis by (simp add: absorb_short)
  next
    case False
    with 1 show ?thesis by (simp add: absorb_long)
  qed
qed

lemma absorb_append:
  "absorb st (xs @ ys) = (case absorb st xs of (st', r) \<Rightarrow> absorb st' (r @ ys))"
proof (induction st xs rule: absorb.induct)
  case (1 st xs)
  show ?case
  proof (cases "length xs < 64")
    case True
    then show ?thesis by (simp add: absorb_short)
  next
    case False
    then have long: "64 \<le> length xs" "64 \<le> length (xs @ ys)" by simp_all
    have "absorb st (xs @ ys) = absorb (md5_compress st (take 64 xs)) (drop 64 xs @ ys)"
      using long by (simp add: absorb_long)
    also have "\<dots> = (case absorb (md5_compress st (take 64 xs)) (drop 64 xs) of
                        (st', r) \<Rightarrow> absorb st' (r @ ys))"
      using 1 False by simp
    also have "\<dots> = (case absorb st xs of (st', r) \<Rightarrow> absorb st' (r @ ys))"
      using long by (simp add: absorb_long)
    finally show ?thesis .
  qed
qed

lemma md5_update_append: "md5_update (md5_update c xs) ys = md5_update c (xs @ ys)"
proof -
  obtain st r where a: "absorb (chain c) (pending c @ xs) = (st, r)"
    by (cases "absorb (chain c) (pending c @ xs)")
  have "absorb (chain c) (pending c @ xs @ ys) = absorb st (r @ ys)"
    using absorb_append [of "chain c" "pending c @ xs" ys] a by simp
  then show ?thesis
    using a by (simp add: md5_update_def add.assoc)
qed

lemma md5_update_pending: "length (pending (md5_update c bs)) < 64"
proof -
  obtain st r where a: "absorb (chain c) (pending c @ bs) = (st, r)"
    by (cases "absorb (chain c) (pending c @ bs)")
  with absorb_rest_short [of "chain c" "pending c @ bs"] show ?thesis
    by (simp add: md5_update_def)
qed

lemma md5_update_nil: "length (pending c) < 64 \<Longrightarrow> md5_update c [] = c"
  by (simp add: md5_update_def absorb_short)

lemma read_chunks_no_fault:
  "0 < n \<Longrightarrow> length (pending ctx) < 64 \<Longrightarrow>
   read_chunks n None i bs ctx = Inr (md5_update ctx bs)"
proof (induction n "None :: (nat \<times> exn) option" i bs ctx rule: read_chunks.induct)
  case (1 n i rest ctx)
  show ?case
  proof (cases "take n rest = []")
    case True
    with 1(2) have "rest = []" by simp
    with 1(3) show ?thesis
      by (subst read_chunks.simps) (simp add: fault_at_def md5_update_nil)
  next
    case False
    have "read_chunks n None i rest ctx =
          read_chunks n None (i + 1) (drop n rest) (md5_update ctx (take n rest))"
      using False by (subst read_chunks.simps) (simp add: fault_at_def)
    also have "\<dots> = Inr (md5_update (md5_update ctx (take n rest)) (drop n rest))"
      using 1(1) [of "take n rest"] False 1(2) by (simp add: fault_at_def md5_update_pending)
    finally show ?thesis by (simp add: md5_update_append)
  qed
qed

lemma length_word_bytes: "length (word_bytes w) = 4"
  by (simp add: word_bytes_def)

lemma length_md5_digest: "length (md5_digest c) = 16"
  by (simp add: md5_digest_def length_word_bytes split: prod.splits)

lemma length_concat_hex: "length (concat (map hex_byte bs)) = 2 * length bs"
  by (induction bs) (simp_all add: hex_byte_def)

lemma length_md5_hexdigest: "length (md5_hexdigest c) = 32"
  by (simp add: md5_hexdigest_def length_concat_hex length_md5_digest)

lemma hex_digit_mem: "i < 16 \<Longrightarrow> hex_digits ! i \<in> set hex_digits"
  by (rule nth_mem) (simp add: hex_digits_def)

lemma hex_byte_chars: "list_all (\<lambda>c. c \<in> set hex_digits) (hex_byte b)"
proof -
  have "unat b < 2 ^ LENGTH(8)" by (rule unsigned_less)
  then have "unat b < 256" by simp
  then have "unat b div 16 < 16" by simp
  moreover have "unat b mod 16 < 16" by simp
  ultimately show ?thesis by (simp add: hex_byte_def hex_digit_mem)
qed

lemma hexdigest_chars: "list_all (\<lambda>c. c \<in> set hex_digits) (md5_hexdigest c)"
  unfolding md5_hexdigest_def
  by (induction "md5_digest c") (use hex_byte_chars in \<open>simp_all add: list_all_iff\<close>)

lemma md5_hexdigest_is_hex: "is_md5_hex (md5_hexdigest c)"
  by (simp add: is_md5_hex_def length_md5_hexdigest hexdigest_chars)

text \<open>Two test vectors of RFC 1321, computed by the model.\<close>

lemma md5_empty: "md5_hexdigest md5_new = ''d41d8cd98f00b204e9800998ecf8427e''"
  by code_simp

lemma md5_abc:
  "md5_hexdigest (md5_update md5_new [0x61, 0x62, 0x63]) = ''900150983cd24fb0d6963f7d28e17f72''"
  by code_simp

section \<open>The scan as a loop over paths\<close>

lemma scan_files_paths:
  "scan_files env root files s = scan_paths env (map (path_join root) files) s"
  by (induction files arbitrary: s) (auto split: prod.splits option.splits)

lemma scan_paths_append:
  "scan_paths env (ps @ qs) s =
     (case scan_paths env ps s of
        (s1, None) \<Rightarrow> scan_paths env qs s1
      | (s1, Some e) \<Rightarrow> (s1, Some e))"
  by (induction ps arbitrary: s) (auto split: prod.splits option.splits)

lemma scan_walk_paths: "scan_walk env ws s = scan_paths env (walk_paths ws) s"
proof (induction ws arbitrary: s)
  case Nil
  show ?case by (simp add: walk_paths_def)
next
  case (Cons w ws)
  obtain root dirs files where w: "w = (root, dirs, files)" by (cases w)
  have "walk_paths (w # ws) = map (path_join root) files @ walk_paths ws"
    by (simp add: walk_paths_def w)
  then show ?case
    using Cons.IH by (simp add: w scan_files_paths scan_paths_append split: prod.splits option.splits)
qed

lemma hash_stream_Inr_hex: "hash_stream n f = Inr h \<Longrightarrow> is_md5_hex h"
  by (auto simp: hash_stream_def md5_hexdigest_is_hex split: option.splits sum.splits)

lemma calculate_md5_Some_hex: "calculate_md5 f = Inr (Some h) \<Longrightarrow> is_md5_hex h"
  by (auto simp: calculate_md5_def split: sum.splits if_splits dest: hash_stream_Inr_hex)

lemma is_md5_hex_nonempty: "is_md5_hex h \<Longrightarrow> h \<noteq> []"
  by (auto simp: is_md5_hex_def)

lemma calculate_md5_not_KeyboardInterrupt_OSError:
  "calculate_md5 f = Inl e \<Longrightarrow> \<not> is_OSError (cls e)"
  by (auto simp: calculate_md5_def split: sum.splits if_splits)

lemma process_file_calm:
  assumes "sink_ok env" and "calm (file_at env p)"
  shows "process_file env p s =
           (s\<lparr>rows := rows s @ [file_row p (file_at env p)],
              file_count := file_count s + (if hashes (file_at env p) then 1 else 0),
              error_count := error_count s + (if hashes (file_at env p) then 0 else 1)\<rparr>, None)"
proof (cases "stat_size (file_at env p)")
  case (Inl e)
  with assms show ?thesis
    by (simp add: process_file_def file_try_def writerow_def sink_ok_def calm_def hashes_def
        file_row_def)
next
  case (Inr n)
  show ?thesis
  proof (cases "calculate_md5 (file_at env p)")
    case (Inl e)
    with Inr assms show ?thesis
      by (simp add: process_file_def file_try_def writerow_def sink_ok_def calm_def hashes_def
          file_row_def)
  next
    case r: (Inr r)
    show ?thesis
    proof (cases r)
      case None
      with r Inr assms show ?thesis
        by (simp add: process_file_def file_try_def writerow_def sink_ok_def calm_def hashes_def
            file_row_def)
    next
      case (Some h)
      with r have "h \<noteq> []"
        using calculate_md5_Some_hex is_md5_hex_nonempty by blast
      with Some r Inr assms show ?thesis
        by (simp add: process_file_def file_try_def writerow_def sink_ok_def calm_def hashes_def
            file_row_def)
    qed
  qed
qed

lemma scan_paths_calm:
  assumes "sink_ok env" and "\<forall>p \<in> set ps. calm (file_at env p)"
  shows "scan_paths env ps s =
           (s\<lparr>rows := rows s @ map (\<lambda>p. file_row p (file_at env p)) ps,
              file_count := file_count s + length (filter (\<lambda>p. hashes (file_at env p)) ps),
              error_count := error_count s + length (filter (\<lambda>p. \<not> hashes (file_at env p)) ps)\<rparr>,
            None)"
  using assms(2)
proof (induction ps arbitrary: s)
  case Nil
  show ?case by simp
next
  case (Cons p ps)
  then have "calm (file_at env p)" and rest: "\<forall>q \<in> set ps. calm (file_at env q)" by simp_all
  then show ?case
    using Cons.IH [OF rest] assms(1) by (simp add: process_file_calm)
qed

lemma walk_count_aux:
  "length (walk_paths (os_walk d es)) = count_files es + count_others es"
  "length (walk_paths (walk_subdirs d es)) + length (filenames es) =
     count_files es + count_others es"
  "length (walk_paths (walk_entry d e)) + (case e of File n \<Rightarrow> 1 | Other n \<Rightarrow> 1 | _ \<Rightarrow> 0) =
     count_entry e + count_other_entry e"
proof (induction d es and d es and d e rule: os_walk_walk_subdirs_walk_entry.induct)
  case (1 dirpath es)
  then show ?case by (simp add: walk_paths_def)
next
  case (2 dirpath)
  show ?case by (simp add: walk_paths_def)
next
  case (3 dirpath e es)
  then show ?case by (cases e) (simp_all add: walk_paths_def)
next
  case (4 dirpath n)
  show ?case by (simp add: walk_paths_def)
next
  case (5 dirpath n sub)
  then show ?case by simp
next
  case (6 dirpath n)
  show ?case by (simp add: walk_paths_def)
next
  case (7 dirpath n)
  show ?case by (simp add: walk_paths_def)
qed

lemma healthy_calculate_md5:
  assumes "healthy f"
  shows "calculate_md5 f = Inr (Some (md5_hexdigest (md5_update md5_new (content f))))"
proof -
  have "length (pending md5_new) < 64" by (simp add: md5_new_def)
  then have "read_chunks 8192 None 0 (content f) md5_new = Inr (md5_update md5_new (content f))"
    by (intro read_chunks_no_fault) simp_all
  with assms show ?thesis
    by (simp add: calculate_md5_def hash_stream_def healthy_def)
qed

lemma healthy_calm: "healthy f \<Longrightarrow> calm f"
  by (cases "stat_size f") (simp_all add: calm_def healthy_calculate_md5, simp add: healthy_def)

lemma healthy_hashes: "healthy f \<Longrightarrow> hashes f"
  by (cases "stat_size f") (simp_all add: hashes_def healthy_calculate_md5, simp add: healthy_def)

declare os_walk.simps [simp del]

lemma foldl_md5_update:
  "length (pending c) < 64 \<Longrightarrow> foldl md5_update c chunks = md5_update c (concat chunks)"
proof (induction chunks arbitrary: c)
  case Nil
  then show ?case by (simp add: md5_update_nil)
next
  case (Cons x xs)
  have "foldl md5_update (md5_update c x) xs = md5_update (md5_update c x) (concat xs)"
    by (rule Cons.IH) (rule md5_update_pending)
  then show ?case by (simp add: md5_update_append)
qed

lemma read_chunks_fault:
  "0 < n \<Longrightarrow> k * n < length rest + n \<Longrightarrow> read_chunks n (Some (i + k, e)) i rest ctx = Inl e"
proof (induction k arbitrary: i rest ctx)
  case 0
  show ?case by (subst read_chunks.simps) (simp add: fault_at_def)
next
  case (Suc k)
  from Suc.prems have nonempty: "rest \<noteq> []" by (cases k) auto
  with Suc.prems have chunk: "take n rest \<noteq> []" by simp
  have reach: "k * n < length (drop n rest) + n"
  proof (cases "n \<le> length rest")
    case True
    with Suc.prems show ?thesis by simp
  next
    case False
    with Suc.prems have "k = 0" by (cases k) auto
    with Suc.prems show ?thesis by simp
  qed
  have "read_chunks n (Some (i + Suc k, e)) i rest ctx =
        read_chunks n (Some (Suc i + k, e)) (Suc i) (drop n rest) (md5_update ctx (take n rest))"
    using chunk by (subst read_chunks.simps) (simp add: fault_at_def)
  also have "\<dots> = Inl e"
    by (rule Suc.IH [OF Suc.prems(1) reach])
  finally show ?case .
qed

section \<open>Rows and counters of a scan\<close>

lemma not_hex_NA: "\<not> is_md5_hex ''N/A''"
  by (simp add: is_md5_hex_def)

lemma record_ok_success: "is_md5_hex h \<Longrightarrow> record_ok [PStr p, PStr h, sz, PStr ''Success'']"
  by (simp add: record_ok_def)

lemma record_ok_read_error:
  "record_ok [PStr p, PStr ''N/A'', sz, PStr ''Error - Could not read file'']"
  by (simp add: record_ok_def not_hex_NA)

lemma record_ok_other_error: "record_ok [PStr p, PStr ''N/A'', sz, PStr (''Error - '' @ msg)]"
  by (simp add: record_ok_def not_hex_NA)

lemma writerow_rows:
  "writerow env r s = (s', x) \<Longrightarrow> record_ok r \<Longrightarrow>
   \<exists>new. rows s' = rows s @ new \<and> list_all record_ok new"
  by (auto simp: writerow_def split: option.splits)

lemma file_try_rows:
  assumes "file_try env p s = (s', x)"
  shows "\<exists>new. rows s' = rows s @ new \<and> list_all record_ok new"
proof (cases "stat_size (file_at env p)")
  case (Inl e)
  with assms show ?thesis by (simp add: file_try_def)
next
  case (Inr n)
  show ?thesis
  proof (cases "calculate_md5 (file_at env p)")
    case (Inl e)
    with Inr assms show ?thesis by (simp add: file_try_def)
  next
    case r: (Inr r)
    show ?thesis
    proof (cases r)
      case None
      with r Inr assms have
        "writerow env [PStr p, PStr ''N/A'', PInt (int n), PStr ''Error - Could not read file'']
           (s\<lparr>error_count := error_count s + 1\<rparr>) = (s', x)"
        by (simp add: file_try_def)
      from writerow_rows [OF this record_ok_read_error] show ?thesis by simp
    next
      case (Some h)
      with r have hex: "is_md5_hex h" by (simp add: calculate_md5_Some_hex)
      then have "h \<noteq> []" by (rule is_md5_hex_nonempty)
      with Some r Inr assms have
        "writerow env [PStr p, PStr h, PInt (int n), PStr ''Success'']
           (s\<lparr>file_count := file_count s + 1\<rparr>) = (s', x)"
        by (simp add: file_try_def)
      from writerow_rows [OF this record_ok_success [OF hex]] show ?thesis by simp
    qed
  qed
qed

lemma process_file_rows:
  assumes "process_file env p s = (s', x)"
  shows "\<exists>new. rows s' = rows s @ new \<and> list_all record_ok new"
proof -
  obtain s1 y where t: "file_try env p s = (s1, y)" by (cases "file_try env p s")
  from file_try_rows [OF t] obtain new1 where
    n1: "rows s1 = rows s @ new1" "list_all record_ok new1" by blast
  show ?thesis
  proof (cases "\<exists>e. y = Some e \<and> is_Exception (cls e)")
    case True
    then obtain e where e: "y = Some e" "is_Exception (cls e)" by blast
    with assms t have
      "writerow env [PStr p, PStr ''N/A'', PStr ''N/A'', PStr (''Error - '' @ str e)]
         (s1\<lparr>error_count := error_count s1 + 1\<rparr>) = (s', x)"
      by (simp add: process_file_def)
    from writerow_rows [OF this record_ok_other_error] obtain new2 where
      "rows s' = rows s1 @ new2" "list_all record_ok new2" by auto
    with n1 show ?thesis by simp
  next
    case False
    with assms t have "s' = s1"
      by (cases y) (auto simp: process_file_def split: if_splits)
    with n1 show ?thesis by blast
  qed
qed

lemma scan_paths_rows:
  "scan_paths env ps s = (s', x) \<Longrightarrow> \<exists>new. rows s' = rows s @ new \<and> list_all record_ok new"
proof (induction ps arbitrary: s)
  case Nil
  then show ?case by simp
next
  case (Cons p ps)
  obtain s1 y where step: "process_file env p s = (s1, y)" by (cases "process_file env p s")
  from process_file_rows [OF step] obtain new1 where
    n1: "rows s1 = rows s @ new1" "list_all record_ok new1" by blast
  show ?case
  proof (cases y)
    case None
    with Cons.prems step have "scan_paths env ps s1 = (s', x)" by simp
    from Cons.IH [OF this] obtain new2 where
      "rows s' = rows s1 @ new2" "list_all record_ok new2" by blast
    with n1 show ?thesis by simp
  next
    case (Some e)
    with Cons.prems step have "s' = s1" by simp
    with n1 show ?thesis by blast
  qed
qed

lemma close_report_rows: "rows (fst (close_report env out r)) = rows (fst r)"
  by (simp add: close_report_def split: option.splits)

lemma close_report_quiet: "sink_close_fault env out = None \<Longrightarrow> close_report env out r = r"
  by (simp add: close_report_def)

lemma scan_directory_rows:
  assumes "scan_directory env root out v = (s, x)"
  shows "rows s = [] \<or> (\<exists>new. rows s = header_row # new \<and> list_all record_ok new)"
proof (cases "sink_open_fault env out")
  case (Some e)
  with assms show ?thesis by (auto simp: scan_directory_def)
next
  case None
  show ?thesis
  proof (cases "writerow_fault env header_row")
    case (Some e)
    with None assms have
      "s = fst (close_report env out
                 (\<lparr>rows = [], file_count = 0, error_count = 0\<rparr>, Some e))"
      by (simp add: scan_directory_def writerow_def)
    then have "rows s = []"
      by (simp add: close_report_rows)
    then show ?thesis by simp
  next
    case hdr: None
    obtain s1 y where run:
      "scan_paths env (walk_paths (walk_of env root))
         \<lparr>rows = [header_row], file_count = 0, error_count = 0\<rparr> = (s1, y)"
      by (cases "scan_paths env (walk_paths (walk_of env root))
                   \<lparr>rows = [header_row], file_count = 0, error_count = 0\<rparr>")
    with hdr None assms have "s = fst (close_report env out (s1, y))"
      by (simp add: scan_directory_def writerow_def scan_walk_paths)
    then have "rows s = rows s1"
      by (simp add: close_report_rows)
    with scan_paths_rows [OF run] show ?thesis by simp
  qed
qed

lemma no_files_no_paths:
  "count_files es = 0 \<Longrightarrow> count_others es = 0 \<Longrightarrow> walk_paths (os_walk d es) = []"
  using walk_count_aux(1) [of d es] by simp

lemma scan_directory_calm:
  assumes "sink_open_fault env out = None" and "sink_ok env"
    and "\<forall>p \<in> set (walk_paths (walk_of env root)). calm (file_at env p)"
    and "sink_close_fault env out = None"
  shows "scan_directory env root out v =
           (\<lparr>rows = header_row # map (\<lambda>p. file_row p (file_at env p)) (walk_paths (walk_of env root)),
             file_count = length (filter (\<lambda>p. hashes (file_at env p)) (walk_paths (walk_of env root))),
             error_count = length (filter (\<lambda>p. \<not> hashes (file_at env p)) (walk_paths (walk_of env root)))\<rparr>,
            None)"
proof -
  from assms(2) have "writerow_fault env header_row = None" by (simp add: sink_ok_def)
  with assms(1) show ?thesis
    by (simp add: scan_directory_def writerow_def scan_walk_paths scan_paths_calm [OF assms(2,3)]
        close_report_quiet [OF assms(4)])
qed

lemma healthy_row_success: "healthy f \<Longrightarrow> has_status ''Success'' (file_row p f)"
  by (cases "stat_size f")
    (simp_all add: file_row_def healthy_calculate_md5 has_status_def, simp add: healthy_def)

lemma vanished_row:
  assumes "vanished f"
  shows "file_row p f =
           (case stat_size f of
              Inl e \<Rightarrow> [PStr p, PStr ''N/A'', PStr ''N/A'', PStr (''Error - '' @ str e)]
            | Inr n \<Rightarrow> [PStr p, PStr ''N/A'', PInt (int n), PStr ''Error - Could not read file''])"
    and "calm f" and "\<not> hashes f" and "\<not> has_status ''Success'' (file_row p f)"
proof -
  have md5: "stat_size f = Inr n \<Longrightarrow> calculate_md5 f = Inr None" for n
    using assms
    by (auto simp: vanished_def calculate_md5_def hash_stream_def split: option.splits)
  show "file_row p f =
           (case stat_size f of
              Inl e \<Rightarrow> [PStr p, PStr ''N/A'', PStr ''N/A'', PStr (''Error - '' @ str e)]
            | Inr n \<Rightarrow> [PStr p, PStr ''N/A'', PInt (int n), PStr ''Error - Could not read file''])"
    using md5 by (cases "stat_size f") (simp_all add: file_row_def)
  show "calm f"
    using md5 assms by (cases "stat_size f") (simp_all add: calm_def vanished_def)
  show "\<not> hashes f"
    using md5 by (cases "stat_size f") (simp_all add: hashes_def)
  show "\<not> has_status ''Success'' (file_row p f)"
    using md5 by (cases "stat_size f") (simp_all add: file_row_def has_status_def)
qed

lemma header_not_success: "\<not> has_status ''Success'' header_row"
  by (simp add: has_status_def header_row_def)

lemma scan_directory_close_fault:
  "sink_open_fault env out = None \<Longrightarrow> sink_close_fault env out = Some e \<Longrightarrow>
   snd (scan_directory env root out v) = Some e"
  by (simp add: scan_directory_def close_report_def)

lemma scan_directory_unlistable:
  "listing env root = None \<Longrightarrow> sink_open_fault env out = None \<Longrightarrow>
   writerow_fault env header_row = None \<Longrightarrow> sink_close_fault env out = None \<Longrightarrow>
   scan_directory env root out v =
     (\<lparr>rows = [header_row], file_count = 0, error_count = 0\<rparr>, None)"
  by (simp add: scan_directory_def writerow_def walk_of_def close_report_def)

lemma main_scan_raised:
  assumes "device_path_of env a = Some d" and "path_exists env d"
    and "snd (scan_directory env d (output_file_of env a) (arg_verbose a)) = Some e"
  shows "main env a = 1"
  using assms
  by (cases "scan_directory env d (output_file_of env a) (arg_verbose a)") (simp add: main_def)

section \<open>Example runs\<close>

lemma quiet_env_sink:
  "sink_ok (quiet_env files tree)" "sink_open_fault (quiet_env files tree) out = None"
  "writerow_fault (quiet_env files tree) r = None"
  "sink_close_fault (quiet_env files tree) out = None"
  by (simp_all add: sink_ok_def quiet_env_def)

declare quiet_env_sink [simp]

lemma healthy_empty_file: "healthy empty_file"
  by (simp add: healthy_def empty_file_def)

lemma calculate_md5_empty_file:
  "calculate_md5 empty_file = Inr (Some ''d41d8cd98f00b204e9800998ecf8427e'')"
proof -
  have "healthy empty_file" by (simp add: healthy_def empty_file_def)
  moreover have "md5_update md5_new [] = md5_new"
    by (rule md5_update_nil) (simp add: md5_new_def)
  moreover have "content empty_file = []" by (simp add: empty_file_def)
  ultimately show ?thesis
    using healthy_calculate_md5 [of empty_file] by (simp add: md5_empty)
qed

lemma calculate_md5_denied_file: "calculate_md5 denied_file = Inr None"
  by (simp add: calculate_md5_def hash_stream_def denied_file_def)

lemma ten_paths:
  "walk_paths (walk_of (quiet_env files ten_files_tree) ''/sdcard'') =
     [''/sdcard/f0'', ''/sdcard/f1'', ''/sdcard/f2''] @ ''/sdcard/f3'' #
     [''/sdcard/f4'', ''/sdcard/f5'', ''/sdcard/f6'', ''/sdcard/f7'', ''/sdcard/f8'', ''/sdcard/f9'']"
  by (simp add: walk_of_def quiet_env_def ten_files_tree_def os_walk.simps walk_paths_def
      path_join_def)

lemma mixed_scan:
  "scan_directory mixed_env ''/sdcard'' ''/tmp/out.csv'' False =
     (\<lparr>rows = [header_row,
               [PStr ''/sdcard/a.bin'', PStr ''d41d8cd98f00b204e9800998ecf8427e'', PInt 0,
                PStr ''Success''],
               [PStr ''/sdcard/DCIM/b.jpg'', PStr ''N/A'', PInt 5,
                PStr ''Error - Could not read file'']],
       file_count = 1, error_count = 1\<rparr>, None)"
proof -
  have paths: "walk_of mixed_env ''/sdcard'' =
      [(''/sdcard'', [''DCIM'', ''Music''], [''a.bin'']),
       (''/sdcard/DCIM'', [''old''], [''b.jpg'']),
       (''/sdcard/DCIM/old'', [], []),
       (''/sdcard/Music'', [], [])]"
    by (simp add: walk_of_def mixed_env_def quiet_env_def nested_tree_def os_walk.simps
        path_join_def)
  have a: "file_at mixed_env ''/sdcard/a.bin'' = empty_file"
    and b: "file_at mixed_env ''/sdcard/DCIM/b.jpg'' = denied_file"
    and w: "writerow_fault mixed_env = (\<lambda>r. None)"
    and o: "sink_open_fault mixed_env ''/tmp/out.csv'' = None"
    and c: "sink_close_fault mixed_env ''/tmp/out.csv'' = None"
    by (simp_all add: mixed_env_def quiet_env_def)
  have sa: "stat_size empty_file = Inr 0" and sb: "stat_size denied_file = Inr 5"
    by (simp_all add: empty_file_def denied_file_def)
  have pa: "process_file mixed_env ''/sdcard/a.bin'' s =
      (s\<lparr>rows := rows s @ [[PStr ''/sdcard/a.bin'', PStr ''d41d8cd98f00b204e9800998ecf8427e'',
                             PInt 0, PStr ''Success'']],
         file_count := file_count s + 1\<rparr>, None)" for s
    by (simp add: process_file_def file_try_def writerow_def a w calculate_md5_empty_file sa)
  have pb: "process_file mixed_env ''/sdcard/DCIM/b.jpg'' s =
      (s\<lparr>rows := rows s @ [[PStr ''/sdcard/DCIM/b.jpg'', PStr ''N/A'', PInt 5,
                             PStr ''Error - Could not read file'']],
         error_count := error_count s + 1\<rparr>, None)" for s
    by (simp add: process_file_def file_try_def writerow_def b w calculate_md5_denied_file sb)
  show ?thesis
    by (simp add: scan_directory_def o w writerow_def paths path_join_def pa pb
        close_report_quiet [OF c])
qed

lemma early_gone_scan:
  "scan_directory early_gone_env ''/sdcard'' ''/tmp/out.csv'' False =
     (\<lparr>rows = [header_row,
        [PStr ''/sdcard/f0'', PStr ''d41d8cd98f00b204e9800998ecf8427e'', PInt 0, PStr ''Success''],
        [PStr ''/sdcard/f1'', PStr ''d41d8cd98f00b204e9800998ecf8427e'', PInt 0, PStr ''Success''],
        [PStr ''/sdcard/f2'', PStr ''d41d8cd98f00b204e9800998ecf8427e'', PInt 0, PStr ''Success''],
        [PStr ''/sdcard/f3'', PStr ''N/A'', PStr ''N/A'',
         PStr ''Error - [Errno 2] No such file or directory''],
        [PStr ''/sdcard/f4'', PStr ''d41d8cd98f00b204e9800998ecf8427e'', PInt 0, PStr ''Success''],
        [PStr ''/sdcard/f5'', PStr ''d41d8cd98f00b204e9800998ecf8427e'', PInt 0, PStr ''Success''],
        [PStr ''/sdcard/f6'', PStr ''d41d8cd98f00b204e9800998ecf8427e'', PInt 0, PStr ''Success''],
        [PStr ''/sdcard/f7'', PStr ''d41d8cd98f00b204e9800998ecf8427e'', PInt 0, PStr ''Success''],
        [PStr ''/sdcard/f8'', PStr ''d41d8cd98f00b204e9800998ecf8427e'', PInt 0, PStr ''Success''],
        [PStr ''/sdcard/f9'', PStr ''d41d8cd98f00b204e9800998ecf8427e'', PInt 0, PStr ''Success'']],
       file_count = 9, error_count = 1\<rparr>, None)"
proof -
  have sa: "stat_size empty_file = Inr 0" and sg: "stat_size gone_file = Inl not_found"
    by (simp_all add: empty_file_def gone_file_def)
  have e: "is_Exception (cls not_found)"
    "str not_found = ''[Errno 2] No such file or directory''"
    by (simp_all add: not_found_def)
  have w: "writerow_fault early_gone_env = (\<lambda>r. None)"
    and o: "sink_open_fault early_gone_env ''/tmp/out.csv'' = None"
    and c: "sink_close_fault early_gone_env ''/tmp/out.csv'' = None"
    and f: "file_at early_gone_env = (\<lambda>p. if p = ''/sdcard/f3'' then gone_file else empty_file)"
    by (simp_all add: early_gone_env_def quiet_env_def)
  have ok: "process_file early_gone_env p s =
      (s\<lparr>rows := rows s @ [[PStr p, PStr ''d41d8cd98f00b204e9800998ecf8427e'', PInt 0,
                             PStr ''Success'']],
         file_count := file_count s + 1\<rparr>, None)" if "p \<noteq> ''/sdcard/f3''" for p s
    using that
    by (simp add: process_file_def file_try_def writerow_def f w calculate_md5_empty_file sa)
  have bad: "process_file early_gone_env ''/sdcard/f3'' s =
      (s\<lparr>rows := rows s @ [[PStr ''/sdcard/f3'', PStr ''N/A'', PStr ''N/A'',
                             PStr ''Error - [Errno 2] No such file or directory'']],
         error_count := error_count s + 1\<rparr>, None)" for s
    by (simp add: process_file_def file_try_def writerow_def f w sg e)
  have walk: "walk_of early_gone_env ''/sdcard'' =
      [(''/sdcard'', [], [''f0'', ''f1'', ''f2'', ''f3'', ''f4'', ''f5'', ''f6'', ''f7'', ''f8'', ''f9''])]"
    by (simp add: walk_of_def early_gone_env_def quiet_env_def ten_files_tree_def os_walk.simps)
  show ?thesis
    by (simp add: scan_directory_def o w writerow_def walk path_join_def ok bad
        close_report_quiet [OF c])
qed

section \<open>The claims about the hasher\<close>

text \<open>
  Claim C7. Hashing is deterministic and independent of the chunk size: for a file that
  opens and reads without error, reading it in chunks of any positive size \<open>n\<close> and
  feeding each chunk to the accumulator gives the digest of the whole content fed at
  once; so the reference size 8192 and any other positive size agree, and two files with
  the same content get the same digest string. The same holds for any way of cutting the
  content into chunks.
\<close>

theorem chunk_size_does_not_matter:
  assumes "0 < n" and "0 < m"
    and "open_fault f = None" and "read_fault f = None"
    and "open_fault g = None" and "read_fault g = None"
    and "content g = content f"
  shows "hash_stream n f = Inr (md5_hexdigest (md5_update md5_new (content f)))
       \<and> hash_stream 8192 f = hash_stream n f
       \<and> hash_stream m g = hash_stream n f
       \<and> md5_hexdigest (foldl md5_update md5_new chunks) =
           md5_hexdigest (md5_update md5_new (concat chunks))"
proof -
  have p: "length (pending md5_new) < 64" by (simp add: md5_new_def)
  have "\<And>j h. 0 < j \<Longrightarrow> open_fault h = None \<Longrightarrow> read_fault h = None \<Longrightarrow>
          hash_stream j h = Inr (md5_hexdigest (md5_update md5_new (content h)))"
    using p by (simp add: hash_stream_def read_chunks_no_fault)
  with assms show ?thesis by (simp add: foldl_md5_update [OF p])
qed

theorem chunk_size_does_not_matter_witness:
  "hash_stream 2 abc_file = Inr ''900150983cd24fb0d6963f7d28e17f72''
 \<and> hash_stream 8192 abc_file = hash_stream 2 abc_file
 \<and> hash_stream 1 abc_file = hash_stream 2 abc_file
 \<and> md5_hexdigest (foldl md5_update md5_new [[0x61], [], [0x62, 0x63]]) =
     ''900150983cd24fb0d6963f7d28e17f72''"
proof -
  have f: "open_fault abc_file = None" "read_fault abc_file = None"
    and c: "content abc_file = [0x61, 0x62, 0x63]"
    by (simp_all add: abc_file_def)
  have cat: "concat [[0x61], [], [0x62, 0x63 :: byte]] = [0x61, 0x62, 0x63]"
    by simp
  have "(0::nat) < 2" and "(0::nat) < 1" by simp_all
  from chunk_size_does_not_matter [OF this f f refl, of "[[0x61], [], [0x62, 0x63]]"]
  show ?thesis
    by (simp only: c cat md5_abc)
qed

text \<open>
  Claim C6. A read error in mid-stream is treated as a failure to open: when the file
  opens and the call number \<open>k\<close> of \<^verbatim>\<open>f.read(8192)\<close> raises \<open>e\<close> (the call is reached:
  the \<open>k\<close> chunks before it were not empty), \<^verbatim>\<open>calculate_md5\<close> gives what it gives when
  \<^verbatim>\<open>open\<close> raises \<open>e\<close>: \<^verbatim>\<open>None\<close> for an \<^verbatim>\<open>OSError\<close>; in no case a digest.
\<close>

theorem read_error_is_open_failure:
  assumes "open_fault f = None" and "read_fault f = Some (k, e)"
    and "k * 8192 < length (content f) + 8192"
  shows "calculate_md5 f = calculate_md5 (f\<lparr>open_fault := Some e\<rparr>)
       \<and> calculate_md5 f = (if is_OSError (cls e) then Inr None else Inl e)
       \<and> (\<forall>digest. calculate_md5 f \<noteq> Inr (Some digest))"
proof -
  have "read_chunks 8192 (Some (0 + k, e)) 0 (content f) md5_new = Inl e"
    by (rule read_chunks_fault) (use assms(3) in simp_all)
  with assms(1,2) have "hash_stream 8192 f = Inl e"
    by (simp add: hash_stream_def)
  moreover have "hash_stream 8192 (f\<lparr>open_fault := Some e\<rparr>) = Inl e"
    by (simp add: hash_stream_def)
  ultimately show ?thesis by (simp add: calculate_md5_def)
qed

theorem read_error_is_open_failure_witness:
  "calculate_md5 broken_file = calculate_md5 (broken_file\<lparr>open_fault := Some io_error\<rparr>)
 \<and> calculate_md5 broken_file = Inr None"
proof -
  have opens: "open_fault broken_file = None"
    and fails: "read_fault broken_file = Some (1, io_error)"
    and reached: "1 * 8192 < length (content broken_file) + 8192"
    by (simp_all add: broken_file_def)
  note r = read_error_is_open_failure [OF opens fails reached]
  have same: "calculate_md5 broken_file = calculate_md5 (broken_file\<lparr>open_fault := Some io_error\<rparr>)"
    by (rule conjunct1 [OF r])
  have "calculate_md5 broken_file = (if is_OSError (cls io_error) then Inr None else Inl io_error)"
    by (rule conjunct1 [OF conjunct2 [OF r]])
  then have "calculate_md5 broken_file = Inr None"
    by (simp add: io_error_def)
  with same show ?thesis
    by (intro conjI)
qed

section \<open>The claims about one file of the scan\<close>







section \<open>The claims about a whole scan\<close>

text \<open>
  Claim C2. In every row of the report other than the header, also of a scan that ends
  early, the digest cell is a string of 32 lowercase hex digits if and only if the status
  cell is \<^verbatim>\<open>Success\<close>, and it is \<^verbatim>\<open>N/A\<close> otherwise.
\<close>

theorem digest_field_matches_status:
  assumes "r \<in> set (rows (fst (scan_directory env root out v)))" and "r \<noteq> header_row"
  shows "\<exists>p h sz st. r = [PStr p, PStr h, sz, PStr st]
           \<and> (is_md5_hex h \<longleftrightarrow> st = ''Success'') \<and> (st \<noteq> ''Success'' \<longrightarrow> h = ''N/A'')"
proof -
  obtain s x where sc: "scan_directory env root out v = (s, x)"
    by (cases "scan_directory env root out v")
  from scan_directory_rows [OF sc] assms sc have "record_ok r"
    by (auto simp: list_all_iff)
  then show ?thesis by (simp add: record_ok_def)
qed

theorem digest_field_matches_status_witness:
  "[PStr ''/sdcard/a.bin'', PStr ''d41d8cd98f00b204e9800998ecf8427e'', PInt 0, PStr ''Success'']
     \<in> set (rows (fst (scan_directory mixed_env ''/sdcard'' ''/tmp/out.csv'' False)))
 \<and> [PStr ''/sdcard/DCIM/b.jpg'', PStr ''N/A'', PInt 5, PStr ''Error - Could not read file'']
     \<in> set (rows (fst (scan_directory mixed_env ''/sdcard'' ''/tmp/out.csv'' False)))
 \<and> is_md5_hex ''d41d8cd98f00b204e9800998ecf8427e''"
proof -
  let ?r = "[PStr ''/sdcard/a.bin'', PStr ''d41d8cd98f00b204e9800998ecf8427e'', PInt 0,
             PStr ''Success'']"
  have mem: "?r \<in> set (rows (fst (scan_directory mixed_env ''/sdcard'' ''/tmp/out.csv'' False)))"
    by (simp add: mixed_scan)
  have ne: "?r \<noteq> header_row"
    by (simp add: header_row_def)
  from digest_field_matches_status [OF mem ne] have "is_md5_hex ''d41d8cd98f00b204e9800998ecf8427e''"
    by simp
  then show ?thesis
    by (simp add: mixed_scan)
qed




text \<open>
  Claim C9, as the code has it. Scanning a root with no entry other than directories
  (an empty directory, or directories only: no regular file, and no special file or
  symbolic link either) succeeds: the report is the header row alone and both counters
  are 0 (given that the report can be opened, accepts the header and can be closed).
\<close>

theorem no_files_header_only:
  assumes "listing env root = Some es" and "count_files es = 0" and "count_others es = 0"
    and "sink_open_fault env out = None" and "writerow_fault env header_row = None"
    and "sink_close_fault env out = None"
  shows "scan_directory env root out v =
           (\<lparr>rows = [header_row], file_count = 0, error_count = 0\<rparr>, None)"
  using assms
  by (simp add: scan_directory_def writerow_def scan_walk_paths walk_of_def no_files_no_paths
      close_report_def)

theorem no_files_header_only_witness:
  "scan_directory (quiet_env (\<lambda>p. gone_file) dirs_only_tree) ''/sdcard'' ''/tmp/out.csv'' False =
     (\<lparr>rows = [header_row], file_count = 0, error_count = 0\<rparr>, None)"
proof -
  let ?env = "quiet_env (\<lambda>p. gone_file) dirs_only_tree"
  let ?es = "[Dir ''DCIM'' [Dir ''old'' []], Dir ''Music'' []]"
  have l: "listing ?env ''/sdcard'' = Some ?es"
    by (simp add: quiet_env_def dirs_only_tree_def)
  have n: "count_files ?es = 0" and m: "count_others ?es = 0" by simp_all
  show ?thesis
    by (rule no_files_header_only
        [OF l n m quiet_env_sink(2) quiet_env_sink(3) quiet_env_sink(4)])
qed

text \<open>
  The claim as stated speaks of a root without regular files. In the run below the
  root holds no regular file, only a dangling symbolic link: the walk lists it among the
  file names, its size query fails, and the report has a data row and the summary one
  error.
\<close>

theorem dangling_link_counterexample:
  "listing dangling_env ''/sdcard'' = Some [Other ''link'']
 \<and> count_files [Other ''link''] = 0
 \<and> scan_directory dangling_env ''/sdcard'' ''/tmp/out.csv'' False =
     (\<lparr>rows = [header_row,
               [PStr ''/sdcard/link'', PStr ''N/A'', PStr ''N/A'',
                PStr ''Error - [Errno 2] No such file or directory'']],
       file_count = 0, error_count = 1\<rparr>, None)"
proof -
  have f: "file_at dangling_env = (\<lambda>p. gone_file)"
    and w: "writerow_fault dangling_env = (\<lambda>r. None)"
    and o: "sink_open_fault dangling_env ''/tmp/out.csv'' = None"
    and c: "sink_close_fault dangling_env ''/tmp/out.csv'' = None"
    and l: "listing dangling_env ''/sdcard'' = Some [Other ''link'']"
    by (simp_all add: dangling_env_def quiet_env_def)
  have sg: "stat_size gone_file = Inl not_found"
    by (simp add: gone_file_def)
  have e: "is_Exception (cls not_found)"
    "str not_found = ''[Errno 2] No such file or directory''"
    by (simp_all add: not_found_def)
  have step: "process_file dangling_env ''/sdcard/link'' s =
      (s\<lparr>rows := rows s @ [[PStr ''/sdcard/link'', PStr ''N/A'', PStr ''N/A'',
                             PStr ''Error - [Errno 2] No such file or directory'']],
         error_count := error_count s + 1\<rparr>, None)" for s
    by (simp add: process_file_def file_try_def writerow_def f w sg e)
  have walk: "walk_of dangling_env ''/sdcard'' = [(''/sdcard'', [], [''link''])]"
    by (simp add: walk_of_def l os_walk.simps)
  have run: "scan_directory dangling_env ''/sdcard'' ''/tmp/out.csv'' False =
     (\<lparr>rows = [header_row,
               [PStr ''/sdcard/link'', PStr ''N/A'', PStr ''N/A'',
                PStr ''Error - [Errno 2] No such file or directory'']],
       file_count = 0, error_count = 1\<rparr>, None)"
    by (simp add: scan_directory_def o w writerow_def walk path_join_def step
        close_report_quiet [OF c])
  show ?thesis
    by (simp add: l run)
qed

text \<open>
  Claim C1, as the code has it. Ten files, one of which vanishes after the walk has
  listed it; the other nine have no access error, and the report can be opened, accepts
  every row and can be closed. The scan completes with eleven rows
  (the header and ten records), nine of them with status \<^verbatim>\<open>Success\<close>, and the counters
  are 9 processed files and 1 error. The row of the vanished file depends on the moment:
  when the size query still succeeds, it is the row \<^verbatim>\<open>Error - Could not read file\<close> with
  the size and \<^verbatim>\<open>N/A\<close> for the digest; when the size query already fails, it is the row
  \<^verbatim>\<open>Error - \<close> followed by the reason, with \<^verbatim>\<open>N/A\<close> for both the digest and the size.
\<close>

theorem one_of_ten_vanishes:
  assumes paths: "walk_paths (walk_of env root) = before @ victim # after"
    and ten: "length before + length after = 9"
    and others: "\<forall>p \<in> set before \<union> set after. healthy (file_at env p)"
    and gone: "vanished (file_at env victim)"
    and sink: "sink_open_fault env out = None" "sink_ok env"
    and closes: "sink_close_fault env out = None"
  shows "\<exists>s. scan_directory env root out v = (s, None)
           \<and> length (rows s) = 11
           \<and> status_count ''Success'' s = 9
           \<and> rows s ! (length before + 1) =
               (case stat_size (file_at env victim) of
                  Inl e \<Rightarrow> [PStr victim, PStr ''N/A'', PStr ''N/A'', PStr (''Error - '' @ str e)]
                | Inr n \<Rightarrow> [PStr victim, PStr ''N/A'', PInt (int n),
                             PStr ''Error - Could not read file''])
           \<and> file_count s = 9 \<and> error_count s = 1"
proof -
  let ?row = "\<lambda>p. file_row p (file_at env p)"
  let ?h = "\<lambda>p. hashes (file_at env p)"
  have hb: "\<forall>p \<in> set before. healthy (file_at env p)"
    and ha: "\<forall>p \<in> set after. healthy (file_at env p)"
    using others by simp_all
  note v = vanished_row [OF gone]
  have calm_all: "\<forall>p \<in> set (walk_paths (walk_of env root)). calm (file_at env p)"
    using hb ha v(2) by (auto simp: paths healthy_calm)
  have fb: "filter ?h before = before" and fa: "filter ?h after = after"
    using hb ha by (simp_all add: healthy_hashes)
  have nb: "filter (\<lambda>p. \<not> ?h p) before = []" and na: "filter (\<lambda>p. \<not> ?h p) after = []"
    using hb ha by (simp_all add: healthy_hashes)
  have sb: "filter (has_status ''Success'') (map ?row before) = map ?row before"
    and sa: "filter (has_status ''Success'') (map ?row after) = map ?row after"
    using hb ha by (simp_all add: healthy_row_success filter_map comp_def)
  let ?s = "\<lparr>rows = header_row # map ?row (before @ victim # after),
             file_count = length (filter ?h (before @ victim # after)),
             error_count = length (filter (\<lambda>p. \<not> ?h p) (before @ victim # after))\<rparr>"
  have run: "scan_directory env root out v = (?s, None)"
    using scan_directory_calm [OF sink calm_all closes, of v] by (simp add: paths)
  have "length (rows ?s) = 11" using ten by simp
  moreover have "status_count ''Success'' ?s = 9"
    using ten v(4) [of victim] by (simp add: status_count_def header_not_success sb sa)
  moreover have "rows ?s ! (length before + 1) = ?row victim"
    by (simp add: nth_append)
  moreover have "file_count ?s = 9" using ten v(3) by (simp add: fb fa)
  moreover have "error_count ?s = 1" using v(3) by (simp add: nb na)
  ultimately show ?thesis
    using run v(1) [of victim] by (intro exI [of _ ?s]) simp
qed

theorem one_of_ten_vanishes_witness:
  "\<exists>s. scan_directory late_gone_env ''/sdcard'' ''/tmp/out.csv'' False = (s, None)
      \<and> length (rows s) = 11
      \<and> status_count ''Success'' s = 9
      \<and> rows s ! 4 = [PStr ''/sdcard/f3'', PStr ''N/A'', PInt 7, PStr ''Error - Could not read file'']
      \<and> file_count s = 9 \<and> error_count s = 1"
proof -
  have paths: "walk_paths (walk_of late_gone_env ''/sdcard'') =
     [''/sdcard/f0'', ''/sdcard/f1'', ''/sdcard/f2''] @ ''/sdcard/f3'' #
     [''/sdcard/f4'', ''/sdcard/f5'', ''/sdcard/f6'', ''/sdcard/f7'', ''/sdcard/f8'', ''/sdcard/f9'']"
    unfolding late_gone_env_def by (rule ten_paths)
  have ten: "length [''/sdcard/f0'', ''/sdcard/f1'', ''/sdcard/f2''] +
     length [''/sdcard/f4'', ''/sdcard/f5'', ''/sdcard/f6'', ''/sdcard/f7'', ''/sdcard/f8'',
             ''/sdcard/f9''] = 9"
    by simp
  have others: "\<forall>p \<in> set [''/sdcard/f0'', ''/sdcard/f1'', ''/sdcard/f2''] \<union>
     set [''/sdcard/f4'', ''/sdcard/f5'', ''/sdcard/f6'', ''/sdcard/f7'', ''/sdcard/f8'',
          ''/sdcard/f9'']. healthy (file_at late_gone_env p)"
    by (simp add: late_gone_env_def quiet_env_def healthy_empty_file)
  have gone: "vanished (file_at late_gone_env ''/sdcard/f3'')"
    by (simp add: late_gone_env_def quiet_env_def vanished_def late_gone_file_def not_found_def)
  have sink: "sink_open_fault late_gone_env ''/tmp/out.csv'' = None" "sink_ok late_gone_env"
    and closes: "sink_close_fault late_gone_env ''/tmp/out.csv'' = None"
    by (simp_all add: late_gone_env_def)
  have victim: "stat_size (file_at late_gone_env ''/sdcard/f3'') = Inr 7"
    by (simp add: late_gone_env_def quiet_env_def late_gone_file_def)
  have four: "(4::nat) = Suc (Suc (Suc (Suc 0)))"
    by simp
  from one_of_ten_vanishes [OF paths ten others gone sink closes, of False] show ?thesis
    by (simp add: victim four)
qed

text \<open>
  The claim as stated promises the row \<^verbatim>\<open>Error - Could not read file\<close> in every such
  run. In the run below the file \<^verbatim>\<open>/sdcard/f3\<close> has vanished when its size is queried:
  the report has nine \<^verbatim>\<open>Success\<close> rows, no row \<^verbatim>\<open>Error - Could not read file\<close>, and one
  row whose status carries the reason of the failed size query.
\<close>

theorem vanished_before_size_query_counterexample:
  "vanished (file_at early_gone_env ''/sdcard/f3'')
 \<and> length (walk_paths (walk_of early_gone_env ''/sdcard'')) = 10
 \<and> snd (scan_directory early_gone_env ''/sdcard'' ''/tmp/out.csv'' False) = None
 \<and> status_count ''Success'' (fst (scan_directory early_gone_env ''/sdcard'' ''/tmp/out.csv'' False)) = 9
 \<and> status_count ''Error - Could not read file''
      (fst (scan_directory early_gone_env ''/sdcard'' ''/tmp/out.csv'' False)) = 0
 \<and> status_count ''Error - [Errno 2] No such file or directory''
      (fst (scan_directory early_gone_env ''/sdcard'' ''/tmp/out.csv'' False)) = 1
 \<and> file_count (fst (scan_directory early_gone_env ''/sdcard'' ''/tmp/out.csv'' False)) = 9
 \<and> error_count (fst (scan_directory early_gone_env ''/sdcard'' ''/tmp/out.csv'' False)) = 1"
proof -
  have "vanished (file_at early_gone_env ''/sdcard/f3'')"
    by (simp add: early_gone_env_def quiet_env_def vanished_def gone_file_def not_found_def)
  moreover have "length (walk_paths (walk_of early_gone_env ''/sdcard'')) = 10"
    by (simp add: early_gone_env_def ten_paths)
  ultimately show ?thesis
    by (simp add: early_gone_scan status_count_def has_status_def header_row_def)
qed

section \<open>The claim about the exit status\<close>

text \<open>
  Claim C8, as the code has it. The exit status is 0 whenever the scan runs to
  completion, whatever the error count; it is 1 when no root path is given and none is
  detected, when the root path does not exist, and when an exception (an interrupt by the
  user, or any other, also one raised when the report is closed) ends the scan. A root
  path that exists but cannot be listed (a regular file, say) is not refused: the scan
  completes without data rows and the exit status is 0, given that the report can be
  opened, accepts the header and can be closed.
\<close>

theorem exit_status:
  "(device_path_of env a = None \<longrightarrow> main env a = 1)
 \<and> (\<forall>d. device_path_of env a = Some d \<and> \<not> path_exists env d \<longrightarrow> main env a = 1)
 \<and> (\<forall>d s. device_path_of env a = Some d \<and> path_exists env d
        \<and> scan_directory env d (output_file_of env a) (arg_verbose a) = (s, None)
        \<longrightarrow> main env a = 0)
 \<and> (\<forall>d s e. device_path_of env a = Some d \<and> path_exists env d
        \<and> scan_directory env d (output_file_of env a) (arg_verbose a) = (s, Some e)
        \<longrightarrow> main env a = 1)
 \<and> (\<forall>d e. device_path_of env a = Some d \<and> path_exists env d
        \<and> sink_open_fault env (output_file_of env a) = None
        \<and> sink_close_fault env (output_file_of env a) = Some e
        \<longrightarrow> main env a = 1)
 \<and> (\<forall>d. device_path_of env a = Some d \<and> path_exists env d \<and> listing env d = None
        \<and> sink_open_fault env (output_file_of env a) = None
        \<and> writerow_fault env header_row = None
        \<and> sink_close_fault env (output_file_of env a) = None
        \<longrightarrow> main env a = 0)"
proof -
  have no_path: "device_path_of env a = None \<longrightarrow> main env a = 1"
    by (simp add: main_def)
  have no_root: "\<forall>d. device_path_of env a = Some d \<and> \<not> path_exists env d \<longrightarrow> main env a = 1"
    by (simp add: main_def)
  have completed: "\<forall>d s. device_path_of env a = Some d \<and> path_exists env d
        \<and> scan_directory env d (output_file_of env a) (arg_verbose a) = (s, None)
        \<longrightarrow> main env a = 0"
    by (simp add: main_def)
  have raised: "\<forall>d s e. device_path_of env a = Some d \<and> path_exists env d
        \<and> scan_directory env d (output_file_of env a) (arg_verbose a) = (s, Some e)
        \<longrightarrow> main env a = 1"
    by (simp add: main_def)
  have close_fails: "\<forall>d e. device_path_of env a = Some d \<and> path_exists env d
        \<and> sink_open_fault env (output_file_of env a) = None
        \<and> sink_close_fault env (output_file_of env a) = Some e
        \<longrightarrow> main env a = 1"
    using main_scan_raised scan_directory_close_fault by blast
  have unlistable: "\<forall>d. device_path_of env a = Some d \<and> path_exists env d \<and> listing env d = None
        \<and> sink_open_fault env (output_file_of env a) = None
        \<and> writerow_fault env header_row = None
        \<and> sink_close_fault env (output_file_of env a) = None
        \<longrightarrow> main env a = 0"
    by (simp add: main_def scan_directory_unlistable)
  from no_path no_root completed raised close_fails unlistable show ?thesis
    by (intro conjI)
qed

theorem exit_status_witness:
  "main mixed_env scan_args = 0
 \<and> error_count (fst (scan_directory mixed_env ''/sdcard'' ''/tmp/out.csv'' False)) = 1
 \<and> main mixed_env (scan_args\<lparr>arg_path := None\<rparr>) = 1
 \<and> main mixed_env (scan_args\<lparr>arg_path := Some ''/nowhere''\<rparr>) = 1
 \<and> main (quiet_env (\<lambda>p. interrupted_file) one_file_tree) scan_args = 1
 \<and> main full_disk_env scan_args = 1"
proof -
  let ?s = "\<lparr>rows = [header_row,
               [PStr ''/sdcard/a.bin'', PStr ''d41d8cd98f00b204e9800998ecf8427e'', PInt 0,
                PStr ''Success''],
               [PStr ''/sdcard/DCIM/b.jpg'', PStr ''N/A'', PInt 5,
                PStr ''Error - Could not read file'']],
       file_count = 1, error_count = 1\<rparr>"
  let ?ienv = "quiet_env (\<lambda>p. interrupted_file) one_file_tree"
  have d: "device_path_of env scan_args = Some ''/sdcard''" for env
    by (simp add: device_path_of_def scan_args_def)
  have ex: "path_exists mixed_env ''/sdcard''"
    by (simp add: mixed_env_def quiet_env_def nested_tree_def)
  have run: "scan_directory mixed_env ''/sdcard'' (output_file_of mixed_env scan_args)
               (arg_verbose scan_args) = (?s, None)"
    using mixed_scan by (simp add: output_file_of_def scan_args_def mixed_env_def quiet_env_def)
  have completed: "main mixed_env scan_args = 0"
    using exit_status [of mixed_env scan_args] d ex run by blast
  have "device_path_of mixed_env (scan_args\<lparr>arg_path := None\<rparr>) = None"
    by (simp add: device_path_of_def mixed_env_def quiet_env_def)
  with exit_status [of mixed_env "scan_args\<lparr>arg_path := None\<rparr>"]
  have missing: "main mixed_env (scan_args\<lparr>arg_path := None\<rparr>) = 1"
    by blast
  have "device_path_of mixed_env (scan_args\<lparr>arg_path := Some ''/nowhere''\<rparr>) = Some ''/nowhere''"
    "\<not> path_exists mixed_env ''/nowhere''"
    by (simp_all add: device_path_of_def mixed_env_def quiet_env_def nested_tree_def)
  with exit_status [of mixed_env "scan_args\<lparr>arg_path := Some ''/nowhere''\<rparr>"]
  have invalid: "main mixed_env (scan_args\<lparr>arg_path := Some ''/nowhere''\<rparr>) = 1"
    by blast
  have iex: "path_exists ?ienv ''/sdcard''"
    by (simp add: quiet_env_def one_file_tree_def)
  have irun: "scan_directory ?ienv ''/sdcard'' (output_file_of ?ienv scan_args)
               (arg_verbose scan_args) =
             (\<lparr>rows = [header_row], file_count = 0, error_count = 0\<rparr>,
              Some (Exn KeyboardInterrupt ''''))"
    by (simp add: scan_directory_def writerow_def walk_of_def quiet_env_def one_file_tree_def
        os_walk.simps path_join_def process_file_def file_try_def interrupted_file_def
        close_report_def)
  have interrupted: "main ?ienv scan_args = 1"
    using exit_status [of ?ienv scan_args] d [of ?ienv] iex irun by blast
  have fex: "path_exists full_disk_env ''/sdcard''"
    and fo: "sink_open_fault full_disk_env (output_file_of full_disk_env scan_args) = None"
    and fc: "sink_close_fault full_disk_env (output_file_of full_disk_env scan_args) = Some disk_full"
    by (simp_all add: full_disk_env_def mixed_env_def quiet_env_def nested_tree_def)
  have full: "main full_disk_env scan_args = 1"
    using exit_status [of full_disk_env scan_args] d [of full_disk_env] fex fo fc by blast
  from completed missing invalid interrupted full show ?thesis
    by (simp add: mixed_scan)
qed

text \<open>
  The claim as stated promises a non-zero exit status for an invalid root path. In the
  run below the root path exists but is a regular file: \<^verbatim>\<open>os.path.exists\<close> accepts it, the
  walk yields nothing, the report is the header alone and the exit status is 0.
\<close>

theorem regular_file_root_counterexample:
  "path_exists file_root_env ''/sdcard/notes.txt''
 \<and> listing file_root_env ''/sdcard/notes.txt'' = None
 \<and> device_path_of file_root_env file_root_args = Some ''/sdcard/notes.txt''
 \<and> scan_directory file_root_env ''/sdcard/notes.txt'' ''/tmp/out.csv'' False =
     (\<lparr>rows = [header_row], file_count = 0, error_count = 0\<rparr>, None)
 \<and> main file_root_env file_root_args = 0"
proof -
  have ex: "path_exists file_root_env ''/sdcard/notes.txt''"
    and l: "listing file_root_env ''/sdcard/notes.txt'' = None"
    and o: "sink_open_fault file_root_env ''/tmp/out.csv'' = None"
    and w: "writerow_fault file_root_env header_row = None"
    and c: "sink_close_fault file_root_env ''/tmp/out.csv'' = None"
    by (simp_all add: file_root_env_def quiet_env_def)
  have d: "device_path_of file_root_env file_root_args = Some ''/sdcard/notes.txt''"
    by (simp add: device_path_of_def file_root_args_def)
  have out: "output_file_of file_root_env file_root_args = ''/tmp/out.csv''"
    by (simp add: output_file_of_def file_root_args_def file_root_env_def quiet_env_def)
  have run: "scan_directory file_root_env ''/sdcard/notes.txt'' ''/tmp/out.csv'' v =
     (\<lparr>rows = [header_row], file_count = 0, error_count = 0\<rparr>, None)" for v
    by (rule scan_directory_unlistable [OF l o w c])
  have "main file_root_env file_root_args = 0"
    by (simp add: main_def d ex out run)
  with ex l d run show ?thesis
    by simp
qed

end
